theory Spec2Isabelle
  imports
    Main
    "HOL-Library.Char_ord"
    "HOL-Library.List_Lexorder"
    "HOL-Library.Sublist"
begin

section \<open>Python values used by \<^verbatim>\<open>resume_builder.py\<close>\<close>

text \<open>
  A Python \<^verbatim>\<open>str\<close> is modelled as a \<^typ>\<open>string\<close>: a list of 8-bit characters, each read
  as the code point of the same number (U+0000 to U+00FF). Code points above U+00FF are
  outside the model. The order on strings is the lexicographic order on code points, as
  Python's \<^verbatim>\<open>sorted\<close> uses it.

  A value stored in an item of the knowledge base is a string or a list of strings
  (\<^verbatim>\<open>tags\<close>, \<^verbatim>\<open>tech\<close>, \<^verbatim>\<open>impact\<close>); an item is a dictionary from field names to
  such values.
\<close>

datatype pyval = Str string | StrList "string list"

type_synonym item = "string \<rightharpoonup> pyval"

text \<open>\<^verbatim>\<open>d.get(k, default)\<close>\<close>

definition dict_get :: "('k \<rightharpoonup> 'v) \<Rightarrow> 'k \<Rightarrow> 'v \<Rightarrow> 'v" where
  "dict_get d k dflt = (case d k of None \<Rightarrow> dflt | Some v \<Rightarrow> v)"

text \<open>
  \<^verbatim>\<open>xs[:n]\<close>: the first \<open>n\<close> elements for \<open>n \<ge> 0\<close>; for a negative \<open>n\<close> Python counts
  the stop from the end, so all but the last \<open>-n\<close> elements.
\<close>

definition py_slice_to :: "int \<Rightarrow> 'a list \<Rightarrow> 'a list" where
  "py_slice_to n xs =
     (if 0 \<le> n then take (nat n) xs else take (length xs - nat (- n)) xs)"

text \<open>
  \<^verbatim>\<open>str.lower()\<close> on code points up to U+00FF: the letters A-Z, and the Latin-1 capitals
  U+00C0 to U+00DE except the multiplication sign U+00D7, move up by 32.
\<close>

definition lower_char :: "char \<Rightarrow> char" where
  "lower_char c =
     (if (CHR ''A'' \<le> c \<and> c \<le> CHR ''Z'') \<or>
         (CHR 0xC0 \<le> c \<and> c \<le> CHR 0xDE \<and> c \<noteq> CHR 0xD7)
      then char_of (of_char c + (32 :: nat)) else c)"

definition lower :: "string \<Rightarrow> string" where
  "lower s = map lower_char s"

text \<open>\<^verbatim>\<open>sep.join(xs)\<close>\<close>

fun join :: "string \<Rightarrow> string list \<Rightarrow> string" where
  "join sep [] = []"
| "join sep [x] = x"
| "join sep (x # y # ys) = x @ sep @ join sep (y # ys)"

text \<open>The decimal numeral of a length, as an f-string prints \<^verbatim>\<open>{len(projects)}\<close>.\<close>

fun str_of_nat :: "nat \<Rightarrow> string" where
  "str_of_nat n =
     (if n < 10 then [char_of (48 + n)]
      else str_of_nat (n div 10) @ [char_of (48 + n mod 10)])"

declare str_of_nat.simps [simp del]

text \<open>
  \<^verbatim>\<open>repr\<close> of a string, which \<^verbatim>\<open>str\<close> of a list applies to each element: the quote is
  \<^verbatim>\<open>'\<close> unless the string holds a \<^verbatim>\<open>'\<close> and no \<^verbatim>\<open>"\<close>; the quote and the backslash are
  escaped with a backslash; tab, newline and carriage return are written \<^verbatim>\<open>\t\<close>, \<^verbatim>\<open>\n\<close>,
  \<^verbatim>\<open>\r\<close>; every other non-printable code point is written \<^verbatim>\<open>\xhh\<close>.
\<close>

definition printable :: "char \<Rightarrow> bool" where
  "printable c \<longleftrightarrow> (CHR 0x20 \<le> c \<and> c < CHR 0x7F) \<or> (CHR 0xA0 < c \<and> c \<noteq> CHR 0xAD)"

definition hex_digit :: "nat \<Rightarrow> char" where
  "hex_digit n = (if n < 10 then char_of (48 + n) else char_of (87 + n))"

definition repr_char :: "char \<Rightarrow> char \<Rightarrow> string" where
  "repr_char quote c =
     (if c = quote \<or> c = CHR 0x5C then [CHR 0x5C, c]
      else if c = CHR 0x09 then [CHR 0x5C, CHR ''t'']
      else if c = CHR 0x0A then [CHR 0x5C, CHR ''n'']
      else if c = CHR 0x0D then [CHR 0x5C, CHR ''r'']
      else if printable c then [c]
      else [CHR 0x5C, CHR ''x'',
            hex_digit ((of_char c :: nat) div 16), hex_digit ((of_char c :: nat) mod 16)])"

definition repr_str :: "string \<Rightarrow> string" where
  "repr_str s =
     (let quote = (if CHR 0x27 \<in> set s \<and> CHR 0x22 \<notin> set s then CHR 0x22 else CHR 0x27)
      in quote # concat (map (repr_char quote) s) @ [quote])"

text \<open>\<^verbatim>\<open>str(v)\<close>, also what an f-string prints for \<^verbatim>\<open>{v}\<close>.\<close>

fun str_of :: "pyval \<Rightarrow> string" where
  "str_of (Str s) = s"
| "str_of (StrList xs) = ''['' @ join '', '' (map repr_str xs) @ '']''"

text \<open>Iterating over a value: a list yields its elements, a string its characters.\<close>

fun iterate :: "pyval \<Rightarrow> string list" where
  "iterate (StrList xs) = xs"
| "iterate (Str s) = map (\<lambda>c. [c]) s"

section \<open>Tokenizer\<close>

text \<open>The character class \<^verbatim>\<open>[a-z0-9\+#\.]\<close>.\<close>

definition token_char :: "char \<Rightarrow> bool" where
  "token_char c \<longleftrightarrow>
     (CHR ''a'' \<le> c \<and> c \<le> CHR ''z'') \<or> (CHR ''0'' \<le> c \<and> c \<le> CHR ''9'') \<or>
     c = CHR ''+'' \<or> c = CHR ''#'' \<or> c = CHR ''.''"

text \<open>
  \<^verbatim>\<open>re.findall\<close> for a pattern \<^verbatim>\<open>[class]+\<close>: scanning from the left, a position where the
  class matches starts a match that takes as many characters as it can, and the scan goes
  on behind it; at any other position the scan moves one character on.
\<close>

function findall :: "(char \<Rightarrow> bool) \<Rightarrow> string \<Rightarrow> string list" where
  "findall p [] = []"
| "findall p (c # cs) =
     (if p c then (c # takeWhile p cs) # findall p (dropWhile p cs) else findall p cs)"
  by pat_completeness auto
termination
  by (relation "measure (\<lambda>(p, s). length s)") (auto simp: length_dropWhile_le less_Suc_eq_le)

definition normalize :: "string \<Rightarrow> string list" where
  "normalize text = findall token_char (lower text)"

definition tokenize :: "string \<Rightarrow> string set" where
  "tokenize text = set (normalize text)"

section \<open>Scorer\<close>

text \<open>The loop over \<^verbatim>\<open>fields\<close>, with the running score.\<close>

fun score_fields :: "string set \<Rightarrow> item \<Rightarrow> string list \<Rightarrow> int \<Rightarrow> int" where
  "score_fields jd_tokens it [] score = score"
| "score_fields jd_tokens it (f # fields) score =
     (let content = lower (str_of (dict_get it f (Str '''')));
          content_tokens = set (normalize content)
      in score_fields jd_tokens it fields (score + int (card (content_tokens \<inter> jd_tokens))))"

text \<open>The tag bonus: \<^verbatim>\<open>3 * len(set(tags) & jd_tokens)\<close> for the lower-cased tags.\<close>

definition tag_bonus :: "string set \<Rightarrow> string list \<Rightarrow> int" where
  "tag_bonus jd_tokens raw_tags =
     (let tags = map lower raw_tags in 3 * int (card (set tags \<inter> jd_tokens)))"

definition score_item :: "string set \<Rightarrow> item \<Rightarrow> string list \<Rightarrow> string \<Rightarrow> int" where
  "score_item jd_tokens it fields tags_field =
     (let score = 0;
          score = score + tag_bonus jd_tokens (iterate (dict_get it tags_field (StrList [])))
      in score_fields jd_tokens it fields score)"

section \<open>Selector\<close>

type_synonym limits = "string \<rightharpoonup> int"

text \<open>
  The second pass over \<^verbatim>\<open>kb_skills\<close>, which appends to \<^verbatim>\<open>matched_skills\<close> while it
  reads it.
\<close>

fun skills_pass2 :: "string set \<Rightarrow> string list \<Rightarrow> string list \<Rightarrow> string list" where
  "skills_pass2 jd_tokens [] matched_skills = matched_skills"
| "skills_pass2 jd_tokens (s # ss) matched_skills =
     (if s \<in> set matched_skills then skills_pass2 jd_tokens ss matched_skills
      else if set (normalize s) \<inter> jd_tokens \<noteq> {}
           then skills_pass2 jd_tokens ss (matched_skills @ [s])
           else skills_pass2 jd_tokens ss matched_skills)"

definition select_skills :: "string set \<Rightarrow> string list \<Rightarrow> int \<Rightarrow> string list" where
  "select_skills jd_tokens skills limit =
     (let matched_skills = filter (\<lambda>s. lower s \<in> jd_tokens) skills;
          matched_skills =
            (if int (length matched_skills) < limit
             then skills_pass2 jd_tokens skills matched_skills else matched_skills)
      in py_slice_to limit matched_skills)"

text \<open>
  \<^verbatim>\<open>xs.sort(key=k, reverse=True)\<close>: the list is reversed, sorted by a stable ascending
  sort, and reversed again.
\<close>

definition py_sort_reverse :: "('a \<Rightarrow> int) \<Rightarrow> 'a list \<Rightarrow> 'a list" where
  "py_sort_reverse k xs = rev (sort_key k (rev xs))"

definition rank_section :: "string set \<Rightarrow> item list \<Rightarrow> string list \<Rightarrow> int \<Rightarrow> item list" where
  "rank_section jd_tokens items fields limit =
     (let scored = map (\<lambda>it. (score_item jd_tokens it fields ''tags'', it)) items;
          scored = filter (\<lambda>x. fst x > 0) scored;
          scored = py_sort_reverse fst scored
      in map snd (py_slice_to limit scored))"

text \<open>
  The knowledge base. The code reads each collection with \<^verbatim>\<open>kb.get(key, [])\<close>, so a
  missing key and an empty collection are the same to it; a field holds the list read.
\<close>

record knowledge_base =
  kb_skills :: "string list"
  kb_projects :: "item list"
  kb_experience :: "item list"
  kb_certificates :: "item list"
  kb_education :: "item list"

definition select_relevant ::
  "knowledge_base \<Rightarrow> string \<Rightarrow> limits \<Rightarrow>
   string list \<times> item list \<times> item list \<times> item list \<times> item list \<times> string set" where
  "select_relevant kb jd_text limits =
     (let jd_tokens = tokenize jd_text;
          matched_skills = select_skills jd_tokens (kb_skills kb) (dict_get limits ''skills'' 10);
          projects = rank_section jd_tokens (kb_projects kb)
                       [''description'', ''name'', ''tech''] (dict_get limits ''projects'' 3);
          experience = rank_section jd_tokens (kb_experience kb)
                       [''description'', ''role'', ''company''] (dict_get limits ''experience'' 3);
          certs = rank_section jd_tokens (kb_certificates kb)
                       [''name'', ''issuer''] (dict_get limits ''certificates'' 3);
          education = py_slice_to (dict_get limits ''education'' 2) (kb_education kb)
      in (matched_skills, projects, experience, certs, education, jd_tokens))"

section \<open>Summary composer\<close>

definition make_summary ::
  "string set \<Rightarrow> string list \<Rightarrow> item list \<Rightarrow> item list \<Rightarrow> knowledge_base \<Rightarrow> string" where
  "make_summary jd_tokens skills projects experience kb =
     (let key_terms =
            py_slice_to 6 (sorted_list_of_set (jd_tokens \<inter> set (map lower skills)));
          terms = (\<lambda>dflt. if key_terms \<noteq> [] then join '', '' key_terms else dflt);
          parts = [];
          parts =
            (case experience of
               e # _ \<Rightarrow>
                 (let role = dict_get e ''role'' (Str ''Engineer'')
                  in parts @ [str_of role @ '' with hands-on work in '' @ terms ''relevant tools''])
             | [] \<Rightarrow>
                 (if projects \<noteq> []
                  then parts @ [''Engineer with projects in '' @ terms ''relevant areas'']
                  else parts));
          parts =
            (if projects \<noteq> []
             then parts @ [''Delivered '' @ str_of_nat (length projects) @ '' relevant project(s).'']
             else parts)
      in join '' '' parts)"

section \<open>Notions of the specification\<close>

text \<open>
  The maximal runs of characters of a class \<open>p\<close> in a string, in the words of the
  specification: a character outside the class is a separator and is dropped; a run is
  a non-empty block of class characters that ends at the end of the string or at a
  separator (and, the scan having passed a separator or started, cannot be extended
  to the left either).
\<close>

inductive max_runs :: "(char \<Rightarrow> bool) \<Rightarrow> string \<Rightarrow> string list \<Rightarrow> bool" for p where
  runs_end: "max_runs p [] []"
| runs_skip: "\<not> p c \<Longrightarrow> max_runs p s ts \<Longrightarrow> max_runs p (c # s) ts"
| runs_run: "w \<noteq> [] \<Longrightarrow> \<forall>c \<in> set w. p c \<Longrightarrow> s = [] \<or> \<not> p (hd s) \<Longrightarrow> max_runs p s ts
        \<Longrightarrow> max_runs p (w @ s) (w # ts)"

text \<open>
  A list without its repetitions: each element stays at its first occurrence.
\<close>

fun first_occurrences :: "'a list \<Rightarrow> 'a list" where
  "first_occurrences [] = []"
| "first_occurrences (x # xs) = x # removeAll x (first_occurrences xs)"

text \<open>
  The two passes over the skills in the words of the specification. Pass 1 keeps every
  skill whose lower-cased whole string is a job-description token, in knowledge-base
  order. Pass 2 runs only if pass 1 found fewer skills than the limit, and appends, in
  knowledge-base order, each skill not matched already whose tokens meet the
  job-description tokens. The combined list is cut to the limit.
\<close>

definition two_pass_skills :: "string set \<Rightarrow> string list \<Rightarrow> int \<Rightarrow> string list" where
  "two_pass_skills jd_tokens skills limit =
     (let pass1 = filter (\<lambda>s. lower s \<in> jd_tokens) skills;
          pass2 =
            (if int (length pass1) < limit
             then first_occurrences
                    (filter (\<lambda>s. s \<notin> set pass1 \<and> set (normalize s) \<inter> jd_tokens \<noteq> {}) skills)
             else [])
      in take (nat limit) (pass1 @ pass2))"

text \<open>
  A stable descending selection: along the output the score never increases, and for
  each score the output items of that score are the first of the input items of that
  score, in the order of the input.
\<close>

definition stable_descending :: "('a \<Rightarrow> int) \<Rightarrow> 'a list \<Rightarrow> 'a list \<Rightarrow> bool" where
  "stable_descending sc inp out \<longleftrightarrow>
     sorted_wrt (\<lambda>a b. sc b \<le> sc a) out \<and>
     (\<forall>k. prefix (filter (\<lambda>x. sc x = k) out) (filter (\<lambda>x. sc x = k) inp))"

section \<open>Example inputs\<close>

definition demo_limits :: limits where
  "demo_limits = [''skills'' \<mapsto> 2, ''projects'' \<mapsto> 3, ''experience'' \<mapsto> 3,
                  ''certificates'' \<mapsto> 3, ''education'' \<mapsto> 2]"

definition proj_blog :: item where
  "proj_blog = [''name'' \<mapsto> Str ''Blog'', ''description'' \<mapsto> Str ''A cooking blog'']"

definition proj_cli :: item where
  "proj_cli = [''name'' \<mapsto> Str ''CLI tool'', ''description'' \<mapsto> Str ''Written with C++'']"

definition proj_api :: item where
  "proj_api = [''name'' \<mapsto> Str ''Python API'', ''description'' \<mapsto> Str ''REST service'',
               ''tech'' \<mapsto> StrList [''Python'', ''C++''], ''tags'' \<mapsto> StrList [''python'']]"

definition proj_parser :: item where
  "proj_parser = [''name'' \<mapsto> Str ''Parser'', ''description'' \<mapsto> Str ''Python and regex'']"

definition exp_backend :: item where
  "exp_backend = [''role'' \<mapsto> Str ''Backend Engineer'', ''company'' \<mapsto> Str ''Acme'',
                  ''description'' \<mapsto> Str ''Python services'']"

definition exp_barista :: item where
  "exp_barista = [''role'' \<mapsto> Str ''Barista'', ''company'' \<mapsto> Str ''Cafe'']"

definition cert_pcap :: item where
  "cert_pcap = [''name'' \<mapsto> Str ''PCAP'', ''issuer'' \<mapsto> Str ''Python Institute'']"

definition edu_bsc :: item where
  "edu_bsc = [''degree'' \<mapsto> Str ''BSc'']"

definition edu_msc :: item where
  "edu_msc = [''degree'' \<mapsto> Str ''MSc'']"

definition edu_phd :: item where
  "edu_phd = [''degree'' \<mapsto> Str ''PhD'']"

definition demo_kb :: knowledge_base where
  "demo_kb = \<lparr>kb_skills = [''Go'', ''Python'', ''C++''],
               kb_projects = [proj_blog, proj_cli, proj_api, proj_parser],
               kb_experience = [exp_barista, exp_backend],
               kb_certificates = [cert_pcap],
               kb_education = [edu_bsc, edu_msc, edu_phd]\<rparr>"

definition repeated_skill_kb :: knowledge_base where
  "repeated_skill_kb = \<lparr>kb_skills = [''Go'', ''Go''], kb_projects = [], kb_experience = [],
                         kb_certificates = [], kb_education = []\<rparr>"

definition repeated_tag_item :: item where
  "repeated_tag_item = [''name'' \<mapsto> Str ''Scheduler'', ''tags'' \<mapsto> StrList [''go'', ''go'']]"

section \<open>Tokenizer: properties\<close>

lemma findall_run:
  assumes "w \<noteq> []" "\<forall>c \<in> set w. p c" "s = [] \<or> \<not> p (hd s)"
  shows "findall p (w @ s) = w # findall p s"
proof -
  obtain c w' where w: "w = c # w'" using assms(1) by (cases w) auto
  have tw: "takeWhile p (w' @ s) = w'"
    using assms(2,3) w by (cases s) (auto simp: takeWhile_append2)
  have dw: "dropWhile p (w' @ s) = s"
    using assms(2,3) w by (cases s) (auto simp: dropWhile_append2)
  show ?thesis using assms(2) w tw dw by simp
qed

lemma findall_max_runs: "max_runs p s (findall p s)"
proof (induction p s rule: findall.induct)
  case (1 p)
  show ?case by (simp add: max_runs.runs_end)
next
  case (2 p c cs)
  show ?case
  proof (cases "p c")
    case True
    let ?w = "c # takeWhile p cs"
    let ?r = "dropWhile p cs"
    have "?r = [] \<or> \<not> p (hd ?r)" by (metis hd_dropWhile)
    moreover have "\<forall>a \<in> set ?w. p a" using True by (auto dest: set_takeWhileD)
    moreover have "max_runs p ?r (findall p ?r)" using 2(1) True by simp
    ultimately have "max_runs p (?w @ ?r) (?w # findall p ?r)"
      by (intro max_runs.runs_run) auto
    then show ?thesis using True by simp
  next
    case False
    then show ?thesis using 2(2) by (simp add: max_runs.runs_skip)
  qed
qed

lemma max_runs_unique: "max_runs p s ts \<Longrightarrow> ts = findall p s"
proof (induction rule: max_runs.induct)
  case runs_end
  show ?case by simp
next
  case (runs_skip c s ts)
  then show ?case by simp
next
  case (runs_run w s ts)
  then show ?case by (simp add: findall_run)
qed

lemma findall_tokens: "t \<in> set (findall p s) \<Longrightarrow> t \<noteq> [] \<and> (\<forall>c \<in> set t. p c)"
proof (induction p s rule: findall.induct)
  case (1 p)
  then show ?case by simp
next
  case (2 p c cs)
  show ?case
  proof (cases "p c")
    case True
    then have "t = c # takeWhile p cs \<or> t \<in> set (findall p (dropWhile p cs))"
      using 2(3) by simp
    then show ?thesis
    proof
      assume "t = c # takeWhile p cs"
      then show ?thesis using True by (auto dest: set_takeWhileD)
    next
      assume "t \<in> set (findall p (dropWhile p cs))"
      then show ?thesis using 2(1) True by blast
    qed
  next
    case False
    then have "t \<in> set (findall p cs)" using 2(3) by simp
    then show ?thesis using 2(2) False by blast
  qed
qed

lemma findall_single:
  assumes "w \<noteq> []" "\<forall>c \<in> set w. p c"
  shows "findall p w = [w]"
  using findall_run [OF assms, of "[]"] by simp

lemma token_char_lower: "token_char c \<Longrightarrow> lower_char c = c"
  unfolding token_char_def lower_char_def less_eq_char_def
  by (elim disjE) simp_all

lemma lower_tokens: "\<forall>c \<in> set w. token_char c \<Longrightarrow> lower w = w"
  by (induction w) (auto simp: lower_def token_char_lower)

lemma tokenize_token_chars: "t \<in> tokenize text \<Longrightarrow> t \<noteq> [] \<and> (\<forall>c \<in> set t. token_char c)"
  unfolding tokenize_def normalize_def by (rule findall_tokens)

lemma normalize_empty: "normalize [] = []"
  by (simp add: normalize_def lower_def)

section \<open>Slices: properties\<close>

lemma py_slice_to_nonneg: "0 \<le> n \<Longrightarrow> py_slice_to n xs = take (nat n) xs"
  by (simp add: py_slice_to_def)

lemma py_slice_to_take: "\<exists>k. py_slice_to n xs = take k xs"
  unfolding py_slice_to_def by (cases "0 \<le> n") auto

lemma py_slice_to_Nil: "py_slice_to n [] = []"
  by (simp add: py_slice_to_def)

lemma length_py_slice_to: "0 \<le> n \<Longrightarrow> int (length (py_slice_to n xs)) \<le> n"
  by (simp add: py_slice_to_def)

lemma py_slice_to_map: "py_slice_to n (map f xs) = map f (py_slice_to n xs)"
  by (simp add: py_slice_to_def take_map)

lemma set_py_slice_to: "set (py_slice_to n xs) \<subseteq> set xs"
  using py_slice_to_take [of n xs] by (auto dest: in_set_takeD)

lemma distinct_py_slice_to: "distinct xs \<Longrightarrow> distinct (py_slice_to n xs)"
  using py_slice_to_take [of n xs] by auto

lemma prefix_py_slice_to: "prefix (py_slice_to n xs) xs"
  using py_slice_to_take [of n xs] by (auto simp: take_is_prefix)

lemma sorted_wrt_py_slice_to: "sorted_wrt R xs \<Longrightarrow> sorted_wrt R (py_slice_to n xs)"
  using py_slice_to_take [of n xs] by (auto simp: sorted_wrt_take)

section \<open>Scorer: properties\<close>

lemma score_fields_acc: "score_fields jd it fs s = s + score_fields jd it fs 0"
proof (induction fs arbitrary: s)
  case Nil
  show ?case by simp
next
  case (Cons f fs)
  let ?d = "int (card (set (normalize (lower (str_of (dict_get it f (Str ''''))))) \<inter> jd))"
  have "score_fields jd it (f # fs) s = score_fields jd it fs (s + ?d)"
    by (simp add: Let_def)
  also have "\<dots> = (s + ?d) + score_fields jd it fs 0" by (rule Cons.IH)
  also have "\<dots> = s + (?d + score_fields jd it fs 0)" by simp
  also have "?d + score_fields jd it fs 0 = score_fields jd it fs (0 + ?d)"
    using Cons.IH [of "0 + ?d"] by simp
  also have "\<dots> = score_fields jd it (f # fs) 0" by (simp add: Let_def)
  finally show ?case .
qed

lemma score_fields_empty: "score_fields {} it fs s = s"
  by (induction fs arbitrary: s) (simp_all add: Let_def)

lemma tag_bonus_empty: "tag_bonus {} ts = 0"
  by (simp add: tag_bonus_def)

lemma score_item_empty: "score_item {} it fs tf = 0"
  by (simp add: score_item_def score_fields_empty tag_bonus_empty)

lemma dict_get_upd_other: "f \<noteq> k \<Longrightarrow> dict_get (d(k \<mapsto> v)) f dflt = dict_get d f dflt"
  by (simp add: dict_get_def)

lemma score_fields_upd:
  "tf \<notin> set fs \<Longrightarrow> score_fields jd (it(tf \<mapsto> v)) fs s = score_fields jd it fs s"
proof (induction fs arbitrary: s)
  case Nil
  show ?case by simp
next
  case (Cons f fs)
  then have "f \<noteq> tf" and "tf \<notin> set fs" by auto
  then show ?case using Cons.IH by (simp add: Let_def dict_get_upd_other del: fun_upd_apply)
qed

lemma score_item_split:
  "score_item jd it fs tf =
     tag_bonus jd (iterate (dict_get it tf (StrList []))) + score_fields jd it fs 0"
  unfolding score_item_def Let_def
proof -
  let ?b = "tag_bonus jd (iterate (dict_get it tf (StrList [])))"
  have "score_fields jd it fs (0 + ?b) = (0 + ?b) + score_fields jd it fs 0"
    by (rule score_fields_acc)
  then show "score_fields jd it fs (0 + ?b) = ?b + score_fields jd it fs 0"
    by (simp only: add_0)
qed

section \<open>Ranking: properties\<close>

lemma insort_key_decorate:
  "insort_key fst (f x, x) (map (\<lambda>y. (f y, y)) ys) = map (\<lambda>y. (f y, y)) (insort_key f x ys)"
  by (induction ys) simp_all

lemma sort_key_decorate:
  "sort_key fst (map (\<lambda>y. (f y, y)) xs) = map (\<lambda>y. (f y, y)) (sort_key f xs)"
  by (induction xs) (simp_all add: insort_key_decorate)

lemma py_sort_reverse_decorate:
  "py_sort_reverse fst (map (\<lambda>y. (f y, y)) xs) = map (\<lambda>y. (f y, y)) (py_sort_reverse f xs)"
  by (simp add: py_sort_reverse_def rev_map sort_key_decorate)

lemma filter_decorate:
  "filter (\<lambda>x. 0 < fst x) (map (\<lambda>y. (f y, y)) xs) = map (\<lambda>y. (f y, y)) (filter (\<lambda>y. 0 < f y) xs)"
  by (induction xs) simp_all

lemma rank_section_eq:
  "rank_section jd items fs limit =
     py_slice_to limit
       (py_sort_reverse (\<lambda>it. score_item jd it fs ''tags'')
          (filter (\<lambda>it. 0 < score_item jd it fs ''tags'') items))"
  unfolding rank_section_def Let_def
  by (simp add: filter_decorate py_sort_reverse_decorate py_slice_to_map [symmetric] comp_def)

lemma set_py_sort_reverse: "set (py_sort_reverse f xs) = set xs"
  by (simp add: py_sort_reverse_def)

lemma distinct_py_sort_reverse: "distinct (py_sort_reverse f xs) = distinct xs"
  by (simp add: py_sort_reverse_def)

lemma sorted_py_sort_reverse: "sorted_wrt (\<lambda>a b. f b \<le> f a) (py_sort_reverse f xs)"
proof -
  have "sorted (map f (sort_key f (rev xs)))" by (rule sorted_sort_key)
  then have "sorted_wrt (\<lambda>a b. f a \<le> f b) (sort_key f (rev xs))"
    by (simp add: sorted_map)
  then show ?thesis by (simp add: py_sort_reverse_def sorted_wrt_rev)
qed

lemma stable_py_sort_reverse:
  "filter (\<lambda>x. f x = k) (py_sort_reverse f xs) = filter (\<lambda>x. f x = k) xs"
proof -
  have "filter (\<lambda>x. f x = k) (sort_key f (rev xs)) = filter (\<lambda>x. f x = k) (rev xs)"
    by (rule sort_key_stable)
  then show ?thesis by (simp add: py_sort_reverse_def rev_filter [symmetric])
qed

lemma set_rank_section:
  "set (rank_section jd items fs limit) \<subseteq> {it \<in> set items. 0 < score_item jd it fs ''tags''}"
  unfolding rank_section_eq
  using set_py_slice_to [of limit "py_sort_reverse (\<lambda>it. score_item jd it fs ''tags'')
          (filter (\<lambda>it. 0 < score_item jd it fs ''tags'') items)"]
  by (auto simp: set_py_sort_reverse)

lemma distinct_rank_section: "distinct items \<Longrightarrow> distinct (rank_section jd items fs limit)"
  unfolding rank_section_eq by (simp add: distinct_py_slice_to distinct_py_sort_reverse)

lemma length_rank_section: "0 \<le> limit \<Longrightarrow> int (length (rank_section jd items fs limit)) \<le> limit"
  unfolding rank_section_eq by (rule length_py_slice_to)

lemma rank_section_empty: "rank_section {} items fs limit = []"
  unfolding rank_section_eq by (simp add: score_item_empty py_sort_reverse_def py_slice_to_Nil)

lemma prefix_filter: "prefix xs ys \<Longrightarrow> prefix (filter P xs) (filter P ys)"
  by (auto simp: prefix_def)

lemma stable_rank_section:
  "stable_descending (\<lambda>it. score_item jd it fs ''tags'') items (rank_section jd items fs limit)"
proof -
  let ?sc = "\<lambda>it. score_item jd it fs ''tags''"
  let ?pos = "filter (\<lambda>it. 0 < ?sc it) items"
  let ?sorted = "py_sort_reverse ?sc ?pos"
  have out: "rank_section jd items fs limit = py_slice_to limit ?sorted"
    by (rule rank_section_eq)
  have "sorted_wrt (\<lambda>a b. ?sc b \<le> ?sc a) (py_slice_to limit ?sorted)"
    by (intro sorted_wrt_py_slice_to sorted_py_sort_reverse)
  moreover have "prefix (filter (\<lambda>x. ?sc x = k) (py_slice_to limit ?sorted))
                        (filter (\<lambda>x. ?sc x = k) items)" for k
  proof -
    have "prefix (filter (\<lambda>x. ?sc x = k) (py_slice_to limit ?sorted))
                 (filter (\<lambda>x. ?sc x = k) ?sorted)"
      by (intro prefix_filter prefix_py_slice_to)
    also have "filter (\<lambda>x. ?sc x = k) ?sorted = filter (\<lambda>x. ?sc x = k) ?pos"
      by (rule stable_py_sort_reverse)
    also have "\<dots> = filter (\<lambda>x. 0 < ?sc x \<and> ?sc x = k) items"
      by (simp add: conj_commute)
    also have "prefix \<dots> (filter (\<lambda>x. ?sc x = k) items)"
    proof (cases "0 < k")
      case True
      then have "(\<lambda>x. 0 < ?sc x \<and> ?sc x = k) = (\<lambda>x. ?sc x = k)" by auto
      then show ?thesis by simp
    next
      case False
      then have "(\<lambda>x. 0 < ?sc x \<and> ?sc x = k) = (\<lambda>x. False)" by auto
      then show ?thesis by simp
    qed
    finally show ?thesis .
  qed
  ultimately show ?thesis unfolding stable_descending_def out by blast
qed

section \<open>Skills: properties\<close>

lemma removeAll_first_occurrences:
  "removeAll a (first_occurrences xs) = first_occurrences (removeAll a xs)"
proof (induction xs)
  case Nil
  show ?case by simp
next
  case (Cons x xs)
  show ?case
  proof (cases "x = a")
    case True
    then show ?thesis by (simp add: Cons.IH [symmetric])
  next
    case False
    have "removeAll a (removeAll x (first_occurrences xs)) =
          removeAll x (removeAll a (first_occurrences xs))"
      by (simp add: removeAll_filter_not_eq conj_commute)
    then show ?thesis using False Cons.IH by simp
  qed
qed

lemma set_first_occurrences: "set (first_occurrences xs) = set xs"
  by (induction xs) auto

lemma distinct_first_occurrences: "distinct (first_occurrences xs)"
  by (induction xs) (simp_all add: distinct_removeAll)

lemma first_occurrences_distinct: "distinct xs \<Longrightarrow> first_occurrences xs = xs"
  by (induction xs) (simp_all add: set_first_occurrences)

lemma skills_pass2_closed:
  "skills_pass2 jd ss m =
     m @ first_occurrences (filter (\<lambda>s. s \<notin> set m \<and> set (normalize s) \<inter> jd \<noteq> {}) ss)"
proof (induction ss arbitrary: m)
  case Nil
  show ?case by simp
next
  case (Cons s ss)
  let ?hit = "\<lambda>s. set (normalize s) \<inter> jd \<noteq> {}"
  show ?case
  proof (cases "s \<in> set m")
    case True
    then show ?thesis using Cons.IH [of m] by simp
  next
    case notin: False
    show ?thesis
    proof (cases "?hit s")
      case True
      have "skills_pass2 jd (s # ss) m = skills_pass2 jd ss (m @ [s])"
        using notin True by simp
      also have "\<dots> = (m @ [s]) @
          first_occurrences (filter (\<lambda>x. x \<notin> set (m @ [s]) \<and> ?hit x) ss)"
        by (rule Cons.IH)
      also have "filter (\<lambda>x. x \<notin> set (m @ [s]) \<and> ?hit x) ss =
                 removeAll s (filter (\<lambda>x. x \<notin> set m \<and> ?hit x) ss)"
        by (induction ss) auto
      also have "first_occurrences (removeAll s (filter (\<lambda>x. x \<notin> set m \<and> ?hit x) ss)) =
                 removeAll s (first_occurrences (filter (\<lambda>x. x \<notin> set m \<and> ?hit x) ss))"
        by (rule removeAll_first_occurrences [symmetric])
      finally show ?thesis using notin True by simp
    next
      case False
      then show ?thesis using notin Cons.IH [of m] by simp
    qed
  qed
qed

lemma select_skills_two_pass:
  "0 \<le> limit \<Longrightarrow> select_skills jd skills limit = two_pass_skills jd skills limit"
  unfolding select_skills_def two_pass_skills_def Let_def
  by (simp add: skills_pass2_closed py_slice_to_nonneg)

lemma select_skills_closed:
  "select_skills jd skills limit =
     py_slice_to limit
       (filter (\<lambda>s. lower s \<in> jd) skills @
        (if int (length (filter (\<lambda>s. lower s \<in> jd) skills)) < limit
         then first_occurrences
                (filter (\<lambda>s. s \<notin> set (filter (\<lambda>s. lower s \<in> jd) skills) \<and>
                             set (normalize s) \<inter> jd \<noteq> {}) skills)
         else []))"
  unfolding select_skills_def Let_def by (simp add: skills_pass2_closed)

lemma set_select_skills: "set (select_skills jd skills limit) \<subseteq> set skills"
proof -
  let ?p1 = "filter (\<lambda>s. lower s \<in> jd) skills"
  let ?p2 = "first_occurrences
                (filter (\<lambda>s. s \<notin> set ?p1 \<and> set (normalize s) \<inter> jd \<noteq> {}) skills)"
  have 1: "set ?p1 \<subseteq> set skills" by auto
  have 2: "set ?p2 \<subseteq> set skills" by (auto simp: set_first_occurrences)
  have "set (?p1 @ (if int (length ?p1) < limit then ?p2 else [])) \<subseteq> set skills"
    using 1 2 by (cases "int (length ?p1) < limit") auto
  then show ?thesis
    unfolding select_skills_closed using set_py_slice_to by (rule order_trans [rotated])
qed

lemma distinct_select_skills:
  assumes "distinct skills"
  shows "distinct (select_skills jd skills limit)"
proof -
  let ?p1 = "filter (\<lambda>s. lower s \<in> jd) skills"
  let ?p2 = "first_occurrences
                (filter (\<lambda>s. s \<notin> set ?p1 \<and> set (normalize s) \<inter> jd \<noteq> {}) skills)"
  have 1: "distinct ?p1" using assms by simp
  have 2: "distinct ?p2" by (rule distinct_first_occurrences)
  have 3: "set ?p1 \<inter> set ?p2 = {}" by (auto simp: set_first_occurrences)
  have "distinct (?p1 @ (if int (length ?p1) < limit then ?p2 else []))"
    using 1 2 3 by (cases "int (length ?p1) < limit") simp_all
  then show ?thesis
    unfolding select_skills_closed by (rule distinct_py_slice_to)
qed

lemma length_select_skills: "0 \<le> limit \<Longrightarrow> int (length (select_skills jd skills limit)) \<le> limit"
  unfolding select_skills_closed by (rule length_py_slice_to)

lemma select_skills_empty: "select_skills {} skills limit = []"
  unfolding select_skills_closed by (simp add: py_slice_to_Nil)

section \<open>The selection as a whole\<close>

lemma select_relevant_eq:
  "select_relevant kb jd_text limits =
     (select_skills (tokenize jd_text) (kb_skills kb) (dict_get limits ''skills'' 10),
      rank_section (tokenize jd_text) (kb_projects kb)
        [''description'', ''name'', ''tech''] (dict_get limits ''projects'' 3),
      rank_section (tokenize jd_text) (kb_experience kb)
        [''description'', ''role'', ''company''] (dict_get limits ''experience'' 3),
      rank_section (tokenize jd_text) (kb_certificates kb)
        [''name'', ''issuer''] (dict_get limits ''certificates'' 3),
      py_slice_to (dict_get limits ''education'' 2) (kb_education kb),
      tokenize jd_text)"
  by (simp add: select_relevant_def Let_def)

lemma dict_get_nonneg:
  "\<forall>k n. limits k = Some n \<longrightarrow> 0 \<le> n \<Longrightarrow> 0 \<le> d \<Longrightarrow> (0::int) \<le> dict_get limits k d"
  by (cases "limits k") (auto simp: dict_get_def)

lemma tokenize_empty: "tokenize [] = {}"
  by (simp add: tokenize_def normalize_empty)

section \<open>The claims\<close>

text \<open>
  C9. \<^verbatim>\<open>normalize\<close> lower-cases its input and returns, in order, exactly the maximal runs
  of characters of the class a-z, 0-9, +, #, . of the lower-cased text, every other
  character being a separator: a list is the list of maximal runs iff it is the result of
  \<^verbatim>\<open>normalize\<close>. In particular \<^verbatim>\<open>normalize("C++ Node.js, AWS!!")\<close> is
  \<^verbatim>\<open>["c++", "node.js", "aws"]\<close>.
\<close>

theorem normalize_maximal_runs:
  "(max_runs token_char (lower text) ts \<longleftrightarrow> ts = normalize text) \<and>
   normalize ''C++ Node.js, AWS!!'' = [''c++'', ''node.js'', ''aws'']"
proof -
  have "max_runs token_char (lower text) ts \<longleftrightarrow> ts = normalize text"
    unfolding normalize_def using findall_max_runs max_runs_unique by blast
  moreover have "normalize ''C++ Node.js, AWS!!'' = [''c++'', ''node.js'', ''aws'']"
    by code_simp
  ultimately show ?thesis by simp
qed

theorem normalize_maximal_runs_witness:
  "max_runs token_char (lower ''C++ Node.js, AWS!!'') [''c++'', ''node.js'', ''aws'']"
  using normalize_maximal_runs [of "''C++ Node.js, AWS!!''" "[''c++'', ''node.js'', ''aws'']"]
  by simp

text \<open>
  C2. Quota invariant: when every value of the limits is non-negative, each of the five
  output sequences of \<^verbatim>\<open>select_relevant\<close> is at most as long as the entry of its
  category in the limits (the entry the code reads: the value stored under the key, or
  the built-in default 10, 3, 3, 3, 2 when the key is missing).
\<close>

theorem select_relevant_quota:
  assumes "\<forall>k n. limits k = Some n \<longrightarrow> 0 \<le> n"
  shows "case select_relevant kb jd_text limits of
           (matched_skills, projects, experience, certs, education, jd_tokens) \<Rightarrow>
             int (length matched_skills) \<le> dict_get limits ''skills'' 10 \<and>
             int (length projects) \<le> dict_get limits ''projects'' 3 \<and>
             int (length experience) \<le> dict_get limits ''experience'' 3 \<and>
             int (length certs) \<le> dict_get limits ''certificates'' 3 \<and>
             int (length education) \<le> dict_get limits ''education'' 2"
proof -
  have n: "0 \<le> dict_get limits ''skills'' 10" "0 \<le> dict_get limits ''projects'' 3"
    "0 \<le> dict_get limits ''experience'' 3" "0 \<le> dict_get limits ''certificates'' 3"
    "0 \<le> dict_get limits ''education'' 2"
    using assms by (simp_all add: dict_get_nonneg)
  show ?thesis
    unfolding select_relevant_eq prod.case
    using n by (intro conjI length_select_skills length_rank_section length_py_slice_to)
qed

lemma demo_limits_nonneg: "\<forall>k n. demo_limits k = Some n \<longrightarrow> 0 \<le> n"
  by (auto simp: demo_limits_def split: if_splits)

lemma demo_limits_get:
  "dict_get demo_limits ''skills'' 10 = 2" "dict_get demo_limits ''projects'' 3 = 3"
  "dict_get demo_limits ''experience'' 3 = 3" "dict_get demo_limits ''certificates'' 3 = 3"
  "dict_get demo_limits ''education'' 2 = 2"
  by (simp_all add: dict_get_def demo_limits_def)

theorem select_relevant_quota_witness:
  "case select_relevant demo_kb ''experience with python and c++'' demo_limits of
     (matched_skills, projects, experience, certs, education, jd_tokens) \<Rightarrow>
       int (length matched_skills) \<le> 2 \<and> int (length projects) \<le> 3 \<and>
       int (length experience) \<le> 3 \<and> int (length certs) \<le> 3 \<and>
       int (length education) \<le> 2"
  using select_relevant_quota [OF demo_limits_nonneg, of demo_kb "''experience with python and c++''"]
  unfolding demo_limits_get by blast

text \<open>
  C3. Zero-score exclusion: an item whose score against the job-description tokens,
  over the fields of its category, is 0 is in none of the ranked outputs (projects,
  experience, certificates) of \<^verbatim>\<open>select_relevant\<close>, whatever the limits, so also when
  the output is shorter than its limit.
\<close>

theorem zero_score_excluded:
  "case select_relevant kb jd_text limits of
     (matched_skills, projects, experience, certs, education, jd_tokens) \<Rightarrow>
       (\<forall>it. score_item jd_tokens it [''description'', ''name'', ''tech''] ''tags'' = 0
              \<longrightarrow> it \<notin> set projects) \<and>
       (\<forall>it. score_item jd_tokens it [''description'', ''role'', ''company''] ''tags'' = 0
              \<longrightarrow> it \<notin> set experience) \<and>
       (\<forall>it. score_item jd_tokens it [''name'', ''issuer''] ''tags'' = 0
              \<longrightarrow> it \<notin> set certs)"
proof -
  have z: "score_item jd it fs ''tags'' = 0 \<Longrightarrow> it \<notin> set (rank_section jd items fs limit)"
    for jd it fs items limit
    using set_rank_section [of jd items fs limit] by auto
  show ?thesis
    unfolding select_relevant_eq prod.case by (intro conjI allI impI z)
qed

theorem zero_score_excluded_witness:
  "score_item (tokenize ''experience with python and c++'') exp_barista
     [''description'', ''role'', ''company''] ''tags'' = 0 \<and>
   exp_barista \<in> set (kb_experience demo_kb) \<and>
   (case select_relevant demo_kb ''experience with python and c++'' demo_limits of
      (matched_skills, projects, experience, certs, education, jd_tokens) \<Rightarrow>
        exp_barista \<notin> set experience \<and> int (length experience) < 3)"
proof -
  let ?jd = "''experience with python and c++''"
  have s: "score_item (tokenize ?jd) exp_barista [''description'', ''role'', ''company''] ''tags'' = 0"
    by code_simp
  have m: "exp_barista \<in> set (kb_experience demo_kb)"
    by (simp add: demo_kb_def)
  have l: "int (length (rank_section (tokenize ?jd) (kb_experience demo_kb)
             [''description'', ''role'', ''company''] 3)) < 3"
    by code_simp
  show ?thesis
    using s m l zero_score_excluded [of demo_kb ?jd demo_limits]
    unfolding select_relevant_eq prod.case demo_limits_get by blast
qed

text \<open>
  C4. Stable descending ranking: in each ranked output of \<^verbatim>\<open>select_relevant\<close>
  (projects, experience, certificates) the scores never increase from one item to the
  next, and the items of equal score stand in the order they have in the
  knowledge-base sequence of that category.
\<close>

theorem ranking_stable_descending:
  "case select_relevant kb jd_text limits of
     (matched_skills, projects, experience, certs, education, jd_tokens) \<Rightarrow>
       stable_descending
         (\<lambda>it. score_item jd_tokens it [''description'', ''name'', ''tech''] ''tags'')
         (kb_projects kb) projects \<and>
       stable_descending
         (\<lambda>it. score_item jd_tokens it [''description'', ''role'', ''company''] ''tags'')
         (kb_experience kb) experience \<and>
       stable_descending
         (\<lambda>it. score_item jd_tokens it [''name'', ''issuer''] ''tags'')
         (kb_certificates kb) certs"
  unfolding select_relevant_eq prod.case by (intro conjI stable_rank_section)

theorem ranking_stable_descending_witness:
  "case select_relevant demo_kb ''experience with python and c++'' demo_limits of
     (matched_skills, projects, experience, certs, education, jd_tokens) \<Rightarrow>
       stable_descending
         (\<lambda>it. score_item jd_tokens it [''description'', ''name'', ''tech''] ''tags'')
         [proj_blog, proj_cli, proj_api, proj_parser] projects \<and>
       map (\<lambda>it. score_item jd_tokens it [''description'', ''name'', ''tech''] ''tags'')
         projects = [6, 2, 2] \<and>
       map (\<lambda>it. it ''name'') projects =
         [Some (Str ''Python API''), Some (Str ''CLI tool''), Some (Str ''Parser'')]"
proof -
  let ?jd = "''experience with python and c++''"
  let ?pr = "rank_section (tokenize ?jd) (kb_projects demo_kb) [''description'', ''name'', ''tech''] 3"
  have k: "kb_projects demo_kb = [proj_blog, proj_cli, proj_api, proj_parser]"
    by (simp add: demo_kb_def)
  have a: "map (\<lambda>it. score_item (tokenize ?jd) it [''description'', ''name'', ''tech''] ''tags'') ?pr
             = [6, 2, 2]"
    by code_simp
  have b: "map (\<lambda>it. it ''name'') ?pr =
             [Some (Str ''Python API''), Some (Str ''CLI tool''), Some (Str ''Parser'')]"
    by code_simp
  show ?thesis
    using a b ranking_stable_descending [of demo_kb ?jd demo_limits]
    unfolding select_relevant_eq prod.case demo_limits_get k by blast
qed

text \<open>
  C5. Skills selection is two-pass and order-preserving: for a non-negative skills
  limit, the skills output of \<^verbatim>\<open>select_relevant\<close> is the list \<open>two_pass_skills\<close>
  describes (pass 1: the skills whose lower-cased whole string is a job-description
  token, in knowledge-base order; pass 2, only if pass 1 found fewer than the limit: the
  skills not matched already whose tokens meet the job-description tokens, in
  knowledge-base order; the whole cut to the limit). In particular, the skills
  Go, Python, C++ with the job description "experience with python and c++" and the limit 2
  give Python, C++.
\<close>

theorem skills_two_pass:
  "(0 \<le> dict_get limits ''skills'' 10 \<longrightarrow>
      fst (select_relevant kb jd_text limits) =
        two_pass_skills (tokenize jd_text) (kb_skills kb) (dict_get limits ''skills'' 10)) \<and>
   (kb_skills kb = [''Go'', ''Python'', ''C++''] \<and> limits ''skills'' = Some 2 \<longrightarrow>
      fst (select_relevant kb ''experience with python and c++'' limits) = [''Python'', ''C++''])"
proof -
  have ex: "select_skills (tokenize ''experience with python and c++'')
              [''Go'', ''Python'', ''C++''] 2 = [''Python'', ''C++'']"
    by code_simp
  have "limits ''skills'' = Some 2 \<Longrightarrow> dict_get limits ''skills'' 10 = 2"
    by (simp add: dict_get_def)
  then show ?thesis
    unfolding select_relevant_eq fst_conv using ex by (auto simp: select_skills_two_pass)
qed

theorem skills_two_pass_witness:
  "(0::int) \<le> dict_get demo_limits ''skills'' 10 \<and>
   kb_skills demo_kb = [''Go'', ''Python'', ''C++''] \<and> demo_limits ''skills'' = Some 2 \<and>
   two_pass_skills (tokenize ''experience with python and c++'') (kb_skills demo_kb) 2 =
     [''Python'', ''C++''] \<and>
   fst (select_relevant demo_kb ''experience with python and c++'' demo_limits) =
     [''Python'', ''C++'']"
proof -
  have a: "(0::int) \<le> dict_get demo_limits ''skills'' 10"
    by (simp add: demo_limits_get)
  have b: "kb_skills demo_kb = [''Go'', ''Python'', ''C++'']"
    by (simp add: demo_kb_def)
  have c: "demo_limits ''skills'' = Some 2"
    by (simp add: demo_limits_def)
  have d: "dict_get demo_limits ''skills'' 10 = 2"
    by (simp add: demo_limits_get)
  have e: "fst (select_relevant demo_kb ''experience with python and c++'' demo_limits) =
             [''Python'', ''C++'']"
    using b c skills_two_pass [of demo_limits demo_kb "''experience with python and c++''"]
    by blast
  have f: "two_pass_skills (tokenize ''experience with python and c++'') (kb_skills demo_kb) 2 =
             [''Python'', ''C++'']"
    using a e skills_two_pass [of demo_limits demo_kb "''experience with python and c++''"]
    unfolding d by simp
  show ?thesis using a b c e f by blast
qed

text \<open>
  C6, as the code has it. Every element of every output of \<^verbatim>\<open>select_relevant\<close> is an
  element of the knowledge-base collection of its category, and an output holds no
  element twice when that collection holds none twice.
\<close>

theorem outputs_drawn_from_kb:
  "case select_relevant kb jd_text limits of
     (matched_skills, projects, experience, certs, education, jd_tokens) \<Rightarrow>
       set matched_skills \<subseteq> set (kb_skills kb) \<and>
       set projects \<subseteq> set (kb_projects kb) \<and>
       set experience \<subseteq> set (kb_experience kb) \<and>
       set certs \<subseteq> set (kb_certificates kb) \<and>
       set education \<subseteq> set (kb_education kb) \<and>
       (distinct (kb_skills kb) \<longrightarrow> distinct matched_skills) \<and>
       (distinct (kb_projects kb) \<longrightarrow> distinct projects) \<and>
       (distinct (kb_experience kb) \<longrightarrow> distinct experience) \<and>
       (distinct (kb_certificates kb) \<longrightarrow> distinct certs) \<and>
       (distinct (kb_education kb) \<longrightarrow> distinct education)"
proof -
  have r: "set (rank_section jd items fs limit) \<subseteq> set items" for jd items fs limit
    using set_rank_section [of jd items fs limit] by auto
  show ?thesis
    unfolding select_relevant_eq prod.case
    by (intro conjI impI set_select_skills r set_py_slice_to distinct_select_skills
          distinct_rank_section distinct_py_slice_to)
qed

lemma distinct_by_key: "distinct (map f xs) \<Longrightarrow> distinct xs"
  by (simp add: distinct_map)

lemma demo_kb_distinct:
  "distinct (kb_skills demo_kb)" "distinct (kb_projects demo_kb)"
  "distinct (kb_experience demo_kb)" "distinct (kb_certificates demo_kb)"
  "distinct (kb_education demo_kb)"
proof -
  show "distinct (kb_skills demo_kb)" by (simp add: demo_kb_def)
  have "distinct (map (\<lambda>it. it ''name'') (kb_projects demo_kb))"
    by (simp add: demo_kb_def proj_blog_def proj_cli_def proj_api_def proj_parser_def)
  then show "distinct (kb_projects demo_kb)" by (rule distinct_by_key)
  have "distinct (map (\<lambda>it. it ''role'') (kb_experience demo_kb))"
    by (simp add: demo_kb_def exp_backend_def exp_barista_def)
  then show "distinct (kb_experience demo_kb)" by (rule distinct_by_key)
  show "distinct (kb_certificates demo_kb)" by (simp add: demo_kb_def)
  have "distinct (map (\<lambda>it. it ''degree'') (kb_education demo_kb))"
    by (simp add: demo_kb_def edu_bsc_def edu_msc_def edu_phd_def)
  then show "distinct (kb_education demo_kb)" by (rule distinct_by_key)
qed

theorem outputs_drawn_from_kb_witness:
  "distinct (kb_skills demo_kb) \<and> distinct (kb_projects demo_kb) \<and>
   distinct (kb_experience demo_kb) \<and> distinct (kb_certificates demo_kb) \<and>
   distinct (kb_education demo_kb) \<and>
   (case select_relevant demo_kb ''experience with python and c++'' demo_limits of
      (matched_skills, projects, experience, certs, education, jd_tokens) \<Rightarrow>
        set matched_skills \<subseteq> {''Go'', ''Python'', ''C++''} \<and> distinct matched_skills \<and>
        set projects \<subseteq> {proj_blog, proj_cli, proj_api, proj_parser} \<and> distinct projects \<and>
        set experience \<subseteq> {exp_barista, exp_backend} \<and> distinct experience \<and>
        set certs \<subseteq> {cert_pcap} \<and> distinct certs \<and>
        set education \<subseteq> {edu_bsc, edu_msc, edu_phd} \<and> distinct education)"
proof -
  have s: "set (kb_skills demo_kb) = {''Go'', ''Python'', ''C++''}"
    "set (kb_projects demo_kb) = {proj_blog, proj_cli, proj_api, proj_parser}"
    "set (kb_experience demo_kb) = {exp_barista, exp_backend}"
    "set (kb_certificates demo_kb) = {cert_pcap}"
    "set (kb_education demo_kb) = {edu_bsc, edu_msc, edu_phd}"
    by (simp_all add: demo_kb_def)
  show ?thesis
    using demo_kb_distinct
      outputs_drawn_from_kb [of demo_kb "''experience with python and c++''" demo_limits]
    unfolding select_relevant_eq prod.case s by blast
qed

text \<open>
  C6, as stated, fails: a skill that the knowledge base lists twice and that is a
  job-description token comes out twice.
\<close>

theorem repeated_skill_counterexample:
  "fst (select_relevant repeated_skill_kb ''go'' demo_limits) = [''Go'', ''Go''] \<and>
   \<not> distinct (fst (select_relevant repeated_skill_kb ''go'' demo_limits))"
proof -
  have "select_skills (tokenize ''go'') [''Go'', ''Go''] 2 = [''Go'', ''Go'']"
    by code_simp
  then show ?thesis
    unfolding select_relevant_eq fst_conv demo_limits_get
    by (simp add: repeated_skill_kb_def)
qed

text \<open>
  C8. Empty job description: \<^verbatim>\<open>tokenize("")\<close> is the empty set, and for every
  knowledge base, with an education limit \<open>n \<ge> 0\<close>, \<^verbatim>\<open>select_relevant\<close> returns empty
  sequences for the matched skills, the projects, the experience and the certificates,
  and the first \<open>n\<close> entries of the education list.
\<close>

theorem empty_job_description:
  assumes "limits ''education'' = Some n" and "0 \<le> n"
  shows "tokenize '''' = {} \<and>
         select_relevant kb '''' limits =
           ([], [], [], [], take (nat n) (kb_education kb), {})"
proof -
  have "dict_get limits ''education'' 2 = n"
    using assms(1) by (simp add: dict_get_def)
  then show ?thesis
    unfolding select_relevant_eq
    using assms(2)
    by (simp add: tokenize_empty select_skills_empty rank_section_empty py_slice_to_nonneg)
qed

theorem empty_job_description_witness:
  "demo_limits ''education'' = Some 2 \<and> (0::int) \<le> 2 \<and> tokenize '''' = {} \<and>
   select_relevant demo_kb '''' demo_limits = ([], [], [], [], [edu_bsc, edu_msc], {})"
proof -
  have a: "demo_limits ''education'' = Some 2"
    by (simp add: demo_limits_def)
  have b: "(0::int) \<le> 2" by simp
  have c: "take (nat 2) (kb_education demo_kb) = [edu_bsc, edu_msc]"
    by (simp add: demo_kb_def)
  show ?thesis
    using a b c empty_job_description [of demo_limits 2 demo_kb] by simp
qed

lemma tag_bonus_remove:
  assumes "lower t \<in> jd" and "lower t \<notin> lower ` set (xs @ ys)"
  shows "tag_bonus jd (xs @ t # ys) = tag_bonus jd (xs @ ys) + 3"
proof -
  let ?A = "lower ` set (xs @ ys)"
  have s: "set (map lower (xs @ t # ys)) = insert (lower t) ?A" by auto
  have s2: "set (map lower (xs @ ys)) = ?A" by (simp only: set_map)
  have i: "insert (lower t) ?A \<inter> jd = insert (lower t) (?A \<inter> jd)"
    using assms(1) by auto
  have f: "finite (?A \<inter> jd)" by simp
  have n: "lower t \<notin> ?A \<inter> jd" using assms(2) by simp
  have "card (insert (lower t) (?A \<inter> jd)) = Suc (card (?A \<inter> jd))"
    using f n by (rule card_insert_disjoint)
  then have "card (set (map lower (xs @ t # ys)) \<inter> jd) = Suc (card (set (map lower (xs @ ys)) \<inter> jd))"
    by (simp only: s s2 i)
  then show ?thesis by (simp add: tag_bonus_def)
qed

lemma tag_bonus_drop:
  assumes "lower t \<notin> jd"
  shows "tag_bonus jd (xs @ t # ys) = tag_bonus jd (xs @ ys)"
proof -
  let ?A = "lower ` set (xs @ ys)"
  have s: "set (map lower (xs @ t # ys)) = insert (lower t) ?A" by auto
  have s2: "set (map lower (xs @ ys)) = ?A" by (simp only: set_map)
  have i: "insert (lower t) ?A \<inter> jd = ?A \<inter> jd"
    using assms by auto
  have "card (set (map lower (xs @ t # ys)) \<inter> jd) = card (set (map lower (xs @ ys)) \<inter> jd)"
    by (simp only: s s2 i)
  then show ?thesis by (simp add: tag_bonus_def)
qed

lemma dict_get_upd_same: "dict_get (d(k \<mapsto> v)) k dflt = v"
  by (simp add: dict_get_def)

lemma dict_get_Some: "d k = Some v \<Longrightarrow> dict_get d k dflt = v"
  by (simp add: dict_get_def)

lemma score_item_tags_replaced:
  assumes "it tf = Some (StrList old)" and "tf \<notin> set fs"
  shows "score_item jd it fs tf - tag_bonus jd old =
         score_item jd (it(tf \<mapsto> StrList new)) fs tf - tag_bonus jd new"
proof -
  have a: "score_item jd it fs tf = tag_bonus jd old + score_fields jd it fs 0"
    unfolding score_item_split using assms(1) by (simp add: dict_get_Some)
  have b: "score_item jd (it(tf \<mapsto> StrList new)) fs tf =
           tag_bonus jd new + score_fields jd it fs 0"
    unfolding score_item_split dict_get_upd_same using assms(2)
    by (simp add: score_fields_upd del: fun_upd_apply)
  show ?thesis unfolding a b by simp
qed

text \<open>
  C1, on the code. With job-description tokens that hold "go" and "sql", the skills
  Go and SQL, two projects and a first experience item whose role is
  "Backend Engineer", \<^verbatim>\<open>make_summary\<close> returns the two sentences joined by a space with
  no period after the first: the code appends the first sentence without a final
  period, where the sentence "Delivered 2 relevant project(s)." carries its own.
\<close>

theorem summary_first_sentence_without_period:
  "''go'' \<in> tokenize ''Go and SQL developer'' \<and> ''sql'' \<in> tokenize ''Go and SQL developer'' \<and>
   length [proj_cli, proj_api] = 2 \<and>
   exp_backend ''role'' = Some (Str ''Backend Engineer'') \<and>
   make_summary (tokenize ''Go and SQL developer'') [''Go'', ''SQL''] [proj_cli, proj_api]
     [exp_backend] demo_kb =
     ''Backend Engineer with hands-on work in go, sql Delivered 2 relevant project(s).'' \<and>
   make_summary (tokenize ''Go and SQL developer'') [''Go'', ''SQL''] [proj_cli, proj_api]
     [exp_backend] demo_kb \<noteq>
     ''Backend Engineer with hands-on work in go, sql. Delivered 2 relevant project(s).''"
proof -
  have a: "''go'' \<in> tokenize ''Go and SQL developer''" by code_simp
  have b: "''sql'' \<in> tokenize ''Go and SQL developer''" by code_simp
  have c: "exp_backend ''role'' = Some (Str ''Backend Engineer'')"
    by (simp add: exp_backend_def)
  have d: "make_summary (tokenize ''Go and SQL developer'') [''Go'', ''SQL''] [proj_cli, proj_api]
     [exp_backend] demo_kb =
     ''Backend Engineer with hands-on work in go, sql Delivered 2 relevant project(s).''"
    by code_simp
  have e: "''Backend Engineer with hands-on work in go, sql Delivered 2 relevant project(s).'' \<noteq>
     ''Backend Engineer with hands-on work in go, sql. Delivered 2 relevant project(s).''"
    by simp
  show ?thesis using a b c e unfolding d by simp
qed

text \<open>
  C7, as the code has it. When the tag list of an item holds a tag whose lower-cased
  form is a job-description token, no other tag of the list has the same lower-cased
  form, and the tags field is not one of the scored fields, the score of the item is
  exactly 3 above the score of the item with that one tag removed and all else equal.
\<close>

theorem tag_weighting:
  assumes "it tags_field = Some (StrList (xs @ t # ys))"
    and "lower t \<in> jd_tokens"
    and "lower t \<notin> lower ` set (xs @ ys)"
    and "tags_field \<notin> set fs"
  shows "score_item jd_tokens it fs tags_field =
         score_item jd_tokens (it(tags_field \<mapsto> StrList (xs @ ys))) fs tags_field + 3"
  using assms(1,4) tag_bonus_remove [OF assms(2,3)]
    score_item_tags_replaced [of it tags_field "xs @ t # ys" fs jd_tokens "xs @ ys"]
  by simp

theorem tag_weighting_witness:
  "proj_api ''tags'' = Some (StrList ([] @ ''python'' # [])) \<and>
   lower ''python'' \<in> tokenize ''experience with python and c++'' \<and>
   lower ''python'' \<notin> lower ` set ([] @ []) \<and>
   ''tags'' \<notin> set [''description'', ''name'', ''tech''] \<and>
   score_item (tokenize ''experience with python and c++'') proj_api
     [''description'', ''name'', ''tech''] ''tags'' = 6 \<and>
   score_item (tokenize ''experience with python and c++'')
     (proj_api(''tags'' \<mapsto> StrList ([] @ []))) [''description'', ''name'', ''tech''] ''tags'' = 3"
proof -
  let ?jd = "tokenize ''experience with python and c++''"
  have a: "proj_api ''tags'' = Some (StrList ([] @ ''python'' # []))"
    by (simp add: proj_api_def)
  have b: "lower ''python'' \<in> ?jd" by code_simp
  have c: "lower ''python'' \<notin> lower ` set ([] @ [])" by simp
  have d: "''tags'' \<notin> set [''description'', ''name'', ''tech'']" by simp
  have e: "score_item ?jd proj_api [''description'', ''name'', ''tech''] ''tags'' = 6"
    by code_simp
  show ?thesis
    using a b c d e
      tag_weighting [of proj_api "''tags''" "[]" "''python''" "[]" ?jd
                        "[''description'', ''name'', ''tech'']"]
    by simp
qed

text \<open>
  C7, as stated, fails: the tag bonus counts the set of lower-cased tags, so removing
  one of two equal tags leaves the score as it is.
\<close>

theorem repeated_tag_counterexample:
  "repeated_tag_item ''tags'' = Some (StrList [''go'', ''go'']) \<and>
   lower ''go'' \<in> tokenize ''go developer'' \<and>
   score_item (tokenize ''go developer'') repeated_tag_item
     [''description'', ''name'', ''tech''] ''tags'' \<noteq>
   score_item (tokenize ''go developer'') (repeated_tag_item(''tags'' \<mapsto> StrList [''go'']))
     [''description'', ''name'', ''tech''] ''tags'' + 3"
proof -
  let ?jd = "tokenize ''go developer''"
  have a: "repeated_tag_item ''tags'' = Some (StrList [''go'', ''go''])"
    by (simp add: repeated_tag_item_def)
  have b: "lower ''go'' \<in> ?jd" by code_simp
  have c: "score_item ?jd repeated_tag_item [''description'', ''name'', ''tech''] ''tags'' = 3"
    by code_simp
  have d: "score_item ?jd (repeated_tag_item(''tags'' \<mapsto> StrList [''go'']))
             [''description'', ''name'', ''tech''] ''tags'' = 3"
    by code_simp
  show ?thesis using a b unfolding c d by simp
qed

text \<open>
  C10. For job-description tokens that \<^verbatim>\<open>tokenize\<close> derived from a text, a tag whose
  lower-cased form holds a character outside a-z, 0-9, +, #, . is not among the tokens,
  and adds nothing to the tag bonus of \<^verbatim>\<open>score_item\<close>: the bonus, and the score when the
  tags field is not a scored field, are those of the item without the tag. A tag can be
  among the tokens only if it is a single normalized token itself.
\<close>

theorem unnormalized_tag_no_bonus:
  assumes "\<exists>c \<in> set (lower t). \<not> token_char c"
  shows "lower t \<notin> tokenize text \<and>
         tag_bonus (tokenize text) (xs @ t # ys) = tag_bonus (tokenize text) (xs @ ys) \<and>
         (it tags_field = Some (StrList (xs @ t # ys)) \<and> tags_field \<notin> set fs \<longrightarrow>
            score_item (tokenize text) it fs tags_field =
            score_item (tokenize text) (it(tags_field \<mapsto> StrList (xs @ ys))) fs tags_field) \<and>
         (\<forall>u. lower u \<in> tokenize text \<longrightarrow> normalize u = [lower u])"
proof -
  have n: "lower t \<notin> tokenize text"
    using assms tokenize_token_chars [of "lower t" "text"] by blast
  have b: "tag_bonus (tokenize text) (xs @ t # ys) = tag_bonus (tokenize text) (xs @ ys)"
    using n by (rule tag_bonus_drop)
  have s: "score_item (tokenize text) it fs tags_field =
           score_item (tokenize text) (it(tags_field \<mapsto> StrList (xs @ ys))) fs tags_field"
    if "it tags_field = Some (StrList (xs @ t # ys))" and "tags_field \<notin> set fs"
    using that b
      score_item_tags_replaced [of it tags_field "xs @ t # ys" fs "tokenize text" "xs @ ys"]
    by simp
  have u: "normalize u = [lower u]" if "lower u \<in> tokenize text" for u
  proof -
    have "lower u \<noteq> [] \<and> (\<forall>c \<in> set (lower u). token_char c)"
      using that by (rule tokenize_token_chars)
    then show ?thesis unfolding normalize_def by (simp add: findall_single)
  qed
  show ?thesis using n b s u by blast
qed

theorem unnormalized_tag_no_bonus_witness:
  "(\<exists>c \<in> set (lower ''Machine Learning''). \<not> token_char c) \<and>
   lower ''Machine Learning'' \<notin> tokenize ''machine learning engineer'' \<and>
   tag_bonus (tokenize ''machine learning engineer'') ([''Learning''] @ ''Machine Learning'' # []) = 3 \<and>
   tag_bonus (tokenize ''machine learning engineer'') ([''Learning''] @ []) = 3"
proof -
  have a: "\<exists>c \<in> set (lower ''Machine Learning''). \<not> token_char c" by code_simp
  have b: "tag_bonus (tokenize ''machine learning engineer'') ([''Learning''] @ []) = 3"
    by code_simp
  show ?thesis
    using a b unnormalized_tag_no_bonus [OF a, of "''machine learning engineer''" "[''Learning'']" "[]"]
    by simp
qed

end
